theory Spec2Isabelle
  imports Complex_Main "HOL-Library.Sublist" "HOL-Library.Char_ord"
    "HOL-Library.List_Lexorder" "HOL-Library.Product_Lexorder"
begin

section \<open>Data model of app.py\<close>

text \<open>
  The dashboard script works on a pandas DataFrame whose rows are events. A row is a
  record with the six columns of the frame; the frame is the list of its rows in index
  order. Timestamps in the script are always midnight of a calendar day, so a date is the
  triple (year, month, day); the lexicographic order on triples is the chronological one.
  Prices and ratios are Python floats in the script; they are modelled by exact rationals.
\<close>

datatype py_error = IndexError | ZeroDivisionError | ValueError

type_synonym date = "nat \<times> nat \<times> nat"

record row =
  event_id :: nat
  user_id :: int
  date :: date
  event :: string
  price :: rat
  month :: string

text \<open>A float that may be NaN: the mean of an empty Series is NaN, not an exception.\<close>

datatype number = NaN | Num rat

section \<open>Sidebar and filter (lines 33-48)\<close>

text \<open>
  \<^verbatim>\<open>if len(date_range) != 2: st.error("Please select start and end date")\<close>
  only shows a message; the script goes on.
\<close>

definition sidebar_messages :: "date list \<Rightarrow> string list" where
  "sidebar_messages date_range =
     (if length date_range \<noteq> 2 then [''Please select start and end date''] else [])"

text \<open>Python indexing \<^verbatim>\<open>xs[i]\<close> with a non-negative index.\<close>

definition getitem :: "'a list \<Rightarrow> nat \<Rightarrow> py_error + 'a" where
  "getitem xs i = (if i < length xs then Inr (xs ! i) else Inl IndexError)"

text \<open>
  \<^verbatim>\<open>mask = df['event'].isin(events) & (df['date'] >= date_range[0]) & (df['date'] <= date_range[1])\<close>
  and \<^verbatim>\<open>view = df[mask]\<close>. The two subscripts are evaluated before any row is looked at.
\<close>

definition mask_rows :: "string list \<Rightarrow> date \<Rightarrow> date \<Rightarrow> row \<Rightarrow> bool" where
  "mask_rows events d0 d1 r = (event r \<in> set events \<and> d0 \<le> date r \<and> date r \<le> d1)"

definition filter_data :: "row list \<Rightarrow> string list \<Rightarrow> date list \<Rightarrow> py_error + row list" where
  "filter_data df events date_range =
     (case getitem date_range 0 of
        Inl e \<Rightarrow> Inl e
      | Inr d0 \<Rightarrow>
          (case getitem date_range 1 of
             Inl e \<Rightarrow> Inl e
           | Inr d1 \<Rightarrow> Inr (filter (mask_rows events d0 d1) df)))"

section \<open>Aggregator (lines 53-98)\<close>

text \<open>\<^verbatim>\<open>view[view['event'] == e]\<close>\<close>

definition select_event :: "string \<Rightarrow> row list \<Rightarrow> row list" where
  "select_event e view = filter (\<lambda>r. event r = e) view"

text \<open>\<^verbatim>\<open>Series.nunique()\<close>: the number of distinct values (the columns hold no nulls).\<close>

definition nunique :: "'a list \<Rightarrow> nat" where
  "nunique xs = length (remdups xs)"

text \<open>
  \<^verbatim>\<open>groupby(col)\<close> with the default \<^verbatim>\<open>sort=True\<close>: one group for each value that occurs in
  the column, the groups in ascending order of the key. String keys compare by code point,
  character by character.
\<close>

definition groupby_keys :: "('a::linorder) list \<Rightarrow> 'a list" where
  "groupby_keys ks = sort (remdups ks)"

text \<open>\<^verbatim>\<open>funnel = view.groupby('event', as_index=False).agg(count=('event','count'))\<close>\<close>

definition funnel :: "row list \<Rightarrow> (string \<times> nat) list" where
  "funnel view =
     map (\<lambda>k. (k, length (select_event k view))) (groupby_keys (map event view))"

definition funnel_order :: "string list" where
  "funnel_order = [''view'', ''add_to_cart'', ''purchase'']"

definition unique_views :: "row list \<Rightarrow> nat" where
  "unique_views view = nunique (map user_id (select_event ''view'' view))"

definition unique_adds :: "row list \<Rightarrow> nat" where
  "unique_adds view = nunique (map user_id (select_event ''add_to_cart'' view))"

definition unique_purchases :: "row list \<Rightarrow> nat" where
  "unique_purchases view = nunique (map user_id (select_event ''purchase'' view))"

text \<open>Python's \<^verbatim>\<open>a / b\<close> on integers raises ZeroDivisionError when \<^verbatim>\<open>b\<close> is 0.\<close>

definition truediv :: "nat \<Rightarrow> nat \<Rightarrow> py_error + rat" where
  "truediv a b = (if b = 0 then Inl ZeroDivisionError else Inr (of_nat a / of_nat b))"

text \<open>\<^verbatim>\<open>conv_view_to_add = unique_adds / unique_views if unique_views else 0\<close>\<close>

definition conv_view_to_add :: "row list \<Rightarrow> py_error + rat" where
  "conv_view_to_add view =
     (if unique_views view \<noteq> 0 then truediv (unique_adds view) (unique_views view)
      else Inr 0)"

text \<open>\<^verbatim>\<open>conv_add_to_purchase = unique_purchases / unique_adds if unique_adds else 0\<close>\<close>

definition conv_add_to_purchase :: "row list \<Rightarrow> py_error + rat" where
  "conv_add_to_purchase view =
     (if unique_adds view \<noteq> 0 then truediv (unique_purchases view) (unique_adds view)
      else Inr 0)"

text \<open>\<^verbatim>\<open>cart_abandonment_rate = 1 - conv_add_to_purchase\<close>\<close>

definition cart_abandonment_rate :: "row list \<Rightarrow> py_error + rat" where
  "cart_abandonment_rate view =
     (case conv_add_to_purchase view of Inl e \<Rightarrow> Inl e | Inr c \<Rightarrow> Inr (1 - c))"

text \<open>\<^verbatim>\<open>Series.mean()\<close>: NaN on an empty Series.\<close>

definition mean :: "rat list \<Rightarrow> number" where
  "mean xs = (if xs = [] then NaN else Num (sum_list xs / of_nat (length xs)))"

text \<open>\<^verbatim>\<open>avg_order_value = view[view['event']=='purchase']['price'].mean() if purchases else 0\<close>\<close>

definition avg_order_value :: "row list \<Rightarrow> number" where
  "avg_order_value view =
     (if unique_purchases view \<noteq> 0 then mean (map price (select_event ''purchase'' view))
      else Num 0)"

text \<open>
  The monthly trend, first step: group the purchase rows by the month string and
  aggregate \<^verbatim>\<open>purchases=('event','count')\<close> and \<^verbatim>\<open>revenue=('price','sum')\<close>.
\<close>

definition monthly_groups :: "row list \<Rightarrow> (string \<times> nat \<times> rat) list" where
  "monthly_groups view =
     (let p = select_event ''purchase'' view
      in map (\<lambda>k. (k, length (filter (\<lambda>r. month r = k) p),
                       sum_list (map price (filter (\<lambda>r. month r = k) p))))
             (groupby_keys (map month p)))"

definition is_digit :: "char \<Rightarrow> bool" where
  "is_digit c = (CHR ''0'' \<le> c \<and> c \<le> CHR ''9'')"

definition digit_val :: "char \<Rightarrow> nat" where
  "digit_val c = of_char c - 48"

text \<open>
  \<^verbatim>\<open>pd.to_datetime\<close> on the month strings. The column holds strings of the shape
  \<^verbatim>\<open>YYYY-MM\<close>, which parse to the first day of that month. Strings of any other shape are
  outside this model and are reported as a ValueError.
\<close>

fun to_datetime :: "string \<Rightarrow> py_error + date" where
  "to_datetime [a, b, c, d, sep, e, f] =
     (if sep = CHR ''-'' \<and> is_digit a \<and> is_digit b \<and> is_digit c \<and> is_digit d
         \<and> is_digit e \<and> is_digit f
      then (let y = 1000 * digit_val a + 100 * digit_val b + 10 * digit_val c + digit_val d;
                m = 10 * digit_val e + digit_val f
            in if 1 \<le> m \<and> m \<le> 12 then Inr (y, m, 1) else Inl ValueError)
      else Inl ValueError)"
| "to_datetime _ = Inl ValueError"

text \<open>Applying a conversion that may raise to every element: the first error wins.\<close>

fun traverse :: "('a \<Rightarrow> py_error + 'b) \<Rightarrow> 'a list \<Rightarrow> py_error + 'b list" where
  "traverse f [] = Inr []"
| "traverse f (x # xs) =
     (case f x of
        Inl e \<Rightarrow> Inl e
      | Inr y \<Rightarrow> (case traverse f xs of Inl e \<Rightarrow> Inl e | Inr ys \<Rightarrow> Inr (y # ys)))"

definition convert_month :: "string \<times> nat \<times> rat \<Rightarrow> py_error + (date \<times> nat \<times> rat)" where
  "convert_month g =
     (case to_datetime (fst g) of Inl e \<Rightarrow> Inl e | Inr d \<Rightarrow> Inr (d, snd g))"

text \<open>
  \<^verbatim>\<open>monthly['month'] = pd.to_datetime(monthly['month'])\<close> and
  \<^verbatim>\<open>monthly = monthly.sort_values('month')\<close>.
\<close>

definition monthly :: "row list \<Rightarrow> py_error + (date \<times> nat \<times> rat) list" where
  "monthly view =
     (case traverse convert_month (monthly_groups view) of
        Inl e \<Rightarrow> Inl e
      | Inr ms \<Rightarrow> Inr (sort_key fst ms))"

section \<open>Data generator (lines 13-26)\<close>

definition digit_char :: "nat \<Rightarrow> char" where
  "digit_char n = char_of (48 + n)"

text \<open>\<^verbatim>\<open>dt.to_period('M').astype(str)\<close>: the year on four digits, a dash, the month on two.\<close>

definition period_str :: "date \<Rightarrow> string" where
  "period_str dt =
     (case dt of (y, m, d) \<Rightarrow>
        [digit_char (y div 1000 mod 10), digit_char (y div 100 mod 10),
         digit_char (y div 10 mod 10), digit_char (y mod 10), CHR ''-'',
         digit_char (m div 10 mod 10), digit_char (m mod 10)])"

definition days_in_month :: "nat \<Rightarrow> nat \<Rightarrow> nat" where
  "days_in_month y m =
     (if m = 2 then (if y mod 4 = 0 \<and> (y mod 100 \<noteq> 0 \<or> y mod 400 = 0) then 29 else 28)
      else if m \<in> {4, 6, 9, 11} then 30 else 31)"

text \<open>\<^verbatim>\<open>pd.date_range('2024-01-01','2024-12-31')\<close>: every day of 2024, in order.\<close>

definition dates_2024 :: "date list" where
  "dates_2024 =
     concat (map (\<lambda>m. map (\<lambda>d. (2024, m, d)) [1 ..< Suc (days_in_month 2024 m)]) [1 ..< 13])"

text \<open>\<^verbatim>\<open>np.round(x, 2)\<close>: to the nearest hundredth, a tie to the even one.\<close>

definition round2 :: "rat \<Rightarrow> rat" where
  "round2 x =
     (let f = \<lfloor>x * 100\<rfloor>; t = x * 100 - of_int f
      in of_int (if t < 1 / 2 then f else if 1 / 2 < t then f + 1
                 else if even f then f else f + 1) / 100)"

text \<open>
  numpy's global random generator is not part of the repository. Its state is a value of
  type \<open>'g\<close>; the calls the script makes are the fields of a record, each taking the state
  and returning the draws with the next state. \<^verbatim>\<open>np.random.seed\<close> replaces the state.
\<close>

record 'g np_random =
  np_seed :: "nat \<Rightarrow> 'g"
  np_randint :: "'g \<Rightarrow> int \<Rightarrow> int \<Rightarrow> nat \<Rightarrow> int list \<times> 'g"
  np_choice_dates :: "'g \<Rightarrow> date list \<Rightarrow> nat \<Rightarrow> date list \<times> 'g"
  np_choice_events :: "'g \<Rightarrow> string list \<Rightarrow> nat \<Rightarrow> rat list \<Rightarrow> string list \<times> 'g"
  np_uniform :: "'g \<Rightarrow> rat \<Rightarrow> rat \<Rightarrow> nat \<Rightarrow> rat list \<times> 'g"

text \<open>
  \<^verbatim>\<open>pd.DataFrame({...})\<close> raises a ValueError when the columns differ in length; otherwise
  row \<open>i\<close> takes the \<open>i\<close>-th entry of every column.
\<close>

definition data_frame ::
  "nat list \<Rightarrow> int list \<Rightarrow> date list \<Rightarrow> string list \<Rightarrow> rat list \<Rightarrow> py_error + row list" where
  "data_frame ids users ds es ps =
     (if length users = length ids \<and> length ds = length ids \<and> length es = length ids
         \<and> length ps = length ids
      then Inr (map (\<lambda>i. \<lparr>event_id = ids ! i, user_id = users ! i, date = ds ! i,
                           event = es ! i, price = ps ! i, month = []\<rparr>) [0 ..< length ids])
      else Inl ValueError)"

text \<open>
  \<^verbatim>\<open>generate_data(n, seed)\<close>, started in the generator state \<open>g0\<close> that earlier code left
  behind. It returns the frame and the state it leaves.
\<close>

definition generate_data :: "'g np_random \<Rightarrow> 'g \<Rightarrow> nat \<Rightarrow> nat \<Rightarrow> (py_error + row list) \<times> 'g" where
  "generate_data np g0 n seed =
     (let g1 = np_seed np seed;
          (users, g2) = np_randint np g1 1 2000 n;
          dates = dates_2024;
          (ds, g3) = np_choice_dates np g2 dates n;
          (es, g4) = np_choice_events np g3 [''view'', ''add_to_cart'', ''purchase''] n
                       [6 / 10, 25 / 100, 15 / 100];
          (ps, g5) = np_uniform np g4 5 300 n
      in (case data_frame [0 ..< n] users ds es (map round2 ps) of
            Inl e \<Rightarrow> Inl e
          | Inr df \<Rightarrow> Inr (map (\<lambda>r. r\<lparr>month := period_str (date r)\<rparr>) df),
          g5))"

section \<open>Well-formed rows\<close>

text \<open>
  Line 25 derives the month column from the date column, and a pandas timestamp has a
  four-digit year and a month from 1 to 12. A row of a frame built by the script
  satisfies both.
\<close>

definition month_start :: "date \<Rightarrow> date" where
  "month_start dt = (case dt of (y, m, d) \<Rightarrow> (y, m, 1))"

definition valid_row :: "row \<Rightarrow> bool" where
  "valid_row r =
     (month r = period_str (date r) \<and> fst (date r) < 10000
      \<and> 1 \<le> fst (snd (date r)) \<and> fst (snd (date r)) \<le> 12)"

section \<open>Sample data\<close>

definition r1 :: row where
  "r1 = \<lparr>event_id = 0, user_id = 1, date = (2024, 1, 10), event = ''view'',
          price = 20, month = ''2024-01''\<rparr>"

definition r2 :: row where
  "r2 = \<lparr>event_id = 1, user_id = 2, date = (2024, 1, 10), event = ''add_to_cart'',
          price = 30, month = ''2024-01''\<rparr>"

definition r3 :: row where
  "r3 = \<lparr>event_id = 2, user_id = 3, date = (2024, 1, 10), event = ''add_to_cart'',
          price = 45, month = ''2024-01''\<rparr>"

definition r4 :: row where
  "r4 = \<lparr>event_id = 3, user_id = 1, date = (2024, 3, 5), event = ''purchase'',
          price = 100, month = ''2024-03''\<rparr>"

definition r5 :: row where
  "r5 = \<lparr>event_id = 4, user_id = 2, date = (2024, 2, 7), event = ''purchase'',
          price = 50, month = ''2024-02''\<rparr>"

definition r6 :: row where
  "r6 = \<lparr>event_id = 5, user_id = 1, date = (2024, 3, 9), event = ''purchase'',
          price = 25, month = ''2024-03''\<rparr>"

definition sample_df :: "row list" where
  "sample_df = [r1, r2, r3, r4, r5, r6]"

section \<open>Shared facts\<close>

lemmas sample_defs = sample_df_def r1_def r2_def r3_def r4_def r5_def r6_def

lemma filter_data_two: "filter_data df events [s, e] = Inr (filter (mask_rows events s e) df)"
  by (simp add: filter_data_def getitem_def)

lemma filter_data_short: "length dr < 2 \<Longrightarrow> filter_data df events dr = Inl IndexError"
  by (cases dr) (auto simp: filter_data_def getitem_def)

lemma filter_data_long:
  "2 \<le> length dr \<Longrightarrow>
   filter_data df events dr = Inr (filter (mask_rows events (dr ! 0) (dr ! 1)) df)"
  by (auto simp: filter_data_def getitem_def)

lemma filter_data_empty:
  assumes "events = [] \<or> e < s"
  shows "filter_data df events [s, e] = Inr []"
proof -
  have "\<not> mask_rows events s e r" for r
    using assms by (auto simp: mask_rows_def)
  then show ?thesis by (simp add: filter_data_two)
qed

lemma nunique_card: "nunique xs = card (set xs)"
  by (simp add: nunique_def length_remdups_card_conv)

lemma set_groupby_keys: "set (groupby_keys ks) = set ks"
  by (simp add: groupby_keys_def)

lemma strict_groupby_keys: "sorted_wrt (<) (groupby_keys ks)"
  by (simp add: groupby_keys_def strict_sorted_iff)

lemma map_fst_funnel: "map fst (funnel V) = groupby_keys (map event V)"
  by (simp add: funnel_def comp_def)

lemma conv_view_to_add_eq:
  "conv_view_to_add V =
     Inr (if unique_views V = 0 then 0 else of_nat (unique_adds V) / of_nat (unique_views V))"
  by (simp add: conv_view_to_add_def truediv_def)

lemma conv_add_to_purchase_eq:
  "conv_add_to_purchase V =
     Inr (if unique_adds V = 0 then 0 else of_nat (unique_purchases V) / of_nat (unique_adds V))"
  by (simp add: conv_add_to_purchase_def truediv_def)

lemma unique_event_card:
  "nunique (map user_id (select_event e V)) = card (user_id ` {r \<in> set V. event r = e})"
  by (simp add: nunique_card select_event_def)

lemma unique_purchases_zero_iff:
  "unique_purchases V = 0 \<longleftrightarrow> select_event ''purchase'' V = []"
  by (simp add: unique_purchases_def nunique_def)

section \<open>Filter engine\<close>

text \<open>
  C4. For a date selection with a start and an end, the filtered view is a subsequence of
  the dataset in the dataset's order, and every row of it has its event among the selected
  ones and its date in the closed interval from start to end.
\<close>

theorem filtered_view_subseq:
  "\<exists>V. filter_data df events [s, e] = Inr V \<and> subseq V df \<and>
     (\<forall>r \<in> set V. event r \<in> set events \<and> s \<le> date r \<and> date r \<le> e)"
  by (simp add: filter_data_two mask_rows_def)

theorem filtered_view_subseq_witness:
  "filter_data sample_df [''view''] [(2024, 1, 1), (2024, 12, 31)] = Inr [r1] \<and>
   subseq [r1] sample_df \<and> event r1 \<in> set [''view''] \<and>
   (2024, 1, 1) \<le> date r1 \<and> date r1 \<le> (2024, 12, 31)"
  using filtered_view_subseq [of sample_df "[''view'']" "(2024, 1, 1)" "(2024, 12, 31)"]
  by (simp add: filter_data_two mask_rows_def sample_defs)

text \<open>
  C10. The filter subscripts the date selection at 0 and at 1 whatever its length. With
  fewer than two dates it ends in an IndexError, although the sidebar has shown its
  message; an IndexError arises in no other case, and with exactly two dates the filter
  returns a view and no message is shown.
\<close>

theorem filter_data_needs_two_dates:
  "(filter_data df events dr = Inl IndexError \<longleftrightarrow> length dr < 2) \<and>
   (length dr < 2 \<longrightarrow> sidebar_messages dr = [''Please select start and end date'']) \<and>
   (length dr = 2 \<longrightarrow> (\<exists>V. filter_data df events dr = Inr V) \<and> sidebar_messages dr = [])"
proof (cases "length dr < 2")
  case True
  then show ?thesis by (simp add: filter_data_short sidebar_messages_def)
next
  case False
  then show ?thesis by (simp add: filter_data_long sidebar_messages_def)
qed

theorem filter_data_needs_two_dates_witness:
  "length [(2024, 1, 1) :: date] < 2 \<and>
   filter_data sample_df [''view''] [(2024, 1, 1)] = Inl IndexError \<and>
   sidebar_messages [(2024, 1, 1)] = [''Please select start and end date''] \<and>
   length [(2024, 1, 1) :: date, (2024, 1, 31)] = 2 \<and>
   filter_data sample_df [''view''] [(2024, 1, 1), (2024, 1, 31)] = Inr [r1] \<and>
   sidebar_messages [(2024, 1, 1), (2024, 1, 31)] = []"
  using filter_data_needs_two_dates [of sample_df "[''view'']" "[(2024, 1, 1)]"]
    filter_data_needs_two_dates [of sample_df "[''view'']" "[(2024, 1, 1), (2024, 1, 31)]"]
  by (simp add: filter_data_two mask_rows_def sidebar_messages_def sample_defs)

section \<open>Funnel\<close>

text \<open>
  C1, as stated, fails: the funnel frame has no entry for an event type without rows, and
  its entries come in the ascending order of the event names, not in the order of
  \<open>funnel_order\<close>. A view holding one view event has the single entry for view; the
  sample frame, which holds all three types, lists add_to_cart, purchase, view.
\<close>

theorem funnel_canonical_counterexample:
  "map fst (funnel [r1]) \<noteq> funnel_order \<and> (''purchase'', 0) \<notin> set (funnel [r1]) \<and>
   map fst (funnel sample_df) = [''add_to_cart'', ''purchase'', ''view''] \<and>
   map fst (funnel sample_df) \<noteq> funnel_order"
  by (simp add: funnel_def groupby_keys_def select_event_def funnel_order_def sample_defs)

text \<open>
  C1, amended. The funnel has an entry for an event type exactly when the view holds a
  row of that type, the count of the entry is the number of rows of the view with that
  event, and the entries are in strictly ascending order of the event name.
\<close>

theorem funnel_counts:
  "sorted_wrt (<) (map fst (funnel V)) \<and>
   ((e, c) \<in> set (funnel V) \<longleftrightarrow> c = length (filter (\<lambda>r. event r = e) V) \<and> 0 < c)"
proof
  show "sorted_wrt (<) (map fst (funnel V))"
    by (simp add: map_fst_funnel strict_groupby_keys)
  have "0 < length (filter (\<lambda>r. event r = e) V) \<longleftrightarrow> e \<in> event ` set V"
    by (auto simp: length_greater_0_conv filter_empty_conv)
  then show "(e, c) \<in> set (funnel V) \<longleftrightarrow> c = length (filter (\<lambda>r. event r = e) V) \<and> 0 < c"
    by (auto simp: funnel_def set_groupby_keys select_event_def)
qed

section \<open>Unique users and conversion rates\<close>

text \<open>
  C5. Each of the three unique counts is the number of distinct user ids among the rows
  of the view with that event. The rate from view to add is unique adds over unique views,
  and 0 when there is no unique view; the rate from add to purchase is unique purchases
  over unique adds, and 0 when there is no unique add. Both are values, never a
  ZeroDivisionError.
\<close>

theorem unique_counts_and_conversions:
  "unique_views V = card (user_id ` {r \<in> set V. event r = ''view''}) \<and>
   unique_adds V = card (user_id ` {r \<in> set V. event r = ''add_to_cart''}) \<and>
   unique_purchases V = card (user_id ` {r \<in> set V. event r = ''purchase''}) \<and>
   conv_view_to_add V =
     Inr (if unique_views V = 0 then 0 else of_nat (unique_adds V) / of_nat (unique_views V)) \<and>
   conv_add_to_purchase V =
     Inr (if unique_adds V = 0 then 0
          else of_nat (unique_purchases V) / of_nat (unique_adds V))"
  by (simp only: unique_views_def unique_adds_def unique_purchases_def unique_event_card
      conv_view_to_add_eq [unfolded unique_views_def unique_adds_def]
      conv_add_to_purchase_eq [unfolded unique_purchases_def unique_adds_def] simp_thms)

text \<open>
  C3, as stated, fails: users may add to the cart without a view in the same view. The
  sample frame filtered to 10 January 2024 holds one viewer and two other users who added
  to the cart, and the rate is 2.
\<close>

theorem conv_view_to_add_counterexample:
  "filter_data sample_df [''view'', ''add_to_cart'', ''purchase''] [(2024, 1, 10), (2024, 1, 10)]
     = Inr [r1, r2, r3] \<and>
   0 < unique_views [r1, r2, r3] \<and> conv_view_to_add [r1, r2, r3] = Inr 2"
  by (simp add: filter_data_two mask_rows_def conv_view_to_add_def truediv_def unique_views_def
      unique_adds_def nunique_def select_event_def sample_defs)

text \<open>
  C3, amended. The rate from view to add is a value that is never negative; it is 0 when
  there is no unique view; when there is one, it is at most 1 exactly when the unique adds
  do not exceed the unique views.
\<close>

theorem conv_view_to_add_range:
  "\<exists>c. conv_view_to_add V = Inr c \<and> 0 \<le> c \<and> (unique_views V = 0 \<longrightarrow> c = 0) \<and>
     (0 < unique_views V \<longrightarrow> (c \<le> 1 \<longleftrightarrow> unique_adds V \<le> unique_views V))"
  by (simp add: conv_view_to_add_eq)

theorem conv_view_to_add_range_witness:
  "0 < unique_views [r1, r2] \<and> unique_adds [r1, r2] \<le> unique_views [r1, r2] \<and>
   conv_view_to_add [r1, r2] = Inr 1 \<and> unique_views [r2] = 0 \<and> conv_view_to_add [r2] = Inr 0"
  using conv_view_to_add_range [of "[r1, r2]"] conv_view_to_add_range [of "[r2]"]
  by (simp add: conv_view_to_add_def truediv_def unique_views_def
      unique_adds_def nunique_def select_event_def sample_defs)

text \<open>
  C6. The cart abandonment rate is 1 minus the rate from add to purchase, and both are
  values.
\<close>

theorem cart_abandonment_complement:
  "\<exists>c. conv_add_to_purchase V = Inr c \<and> cart_abandonment_rate V = Inr (1 - c)"
  by (simp add: cart_abandonment_rate_def conv_add_to_purchase_eq)

section \<open>Average order value\<close>

text \<open>
  C7. The average order value is the sum of the prices of the purchase rows of the view
  over their number, and it is the number 0, not NaN, when the view has no purchase row.
\<close>

theorem avg_order_value_mean:
  "avg_order_value V =
     Num (if filter (\<lambda>r. event r = ''purchase'') V = [] then 0
          else sum_list (map price (filter (\<lambda>r. event r = ''purchase'') V))
               / of_nat (length (filter (\<lambda>r. event r = ''purchase'') V)))"
  by (simp add: avg_order_value_def unique_purchases_zero_iff mean_def select_event_def)

section \<open>Empty selections\<close>

text \<open>
  C2, as stated, fails in one aggregate: on the empty view the rate from add to purchase
  is 0, so the cart abandonment rate is 1, not 0. Both an empty event selection and a
  reversed date range give the empty view on the sample frame.
\<close>

theorem empty_view_abandonment_counterexample:
  "filter_data sample_df [] [(2024, 1, 1), (2024, 12, 31)] = Inr [] \<and>
   filter_data sample_df [''view'', ''add_to_cart'', ''purchase''] [(2024, 12, 31), (2024, 1, 1)]
     = Inr [] \<and>
   cart_abandonment_rate [] = Inr 1 \<and> cart_abandonment_rate [] \<noteq> Inr 0"
  by (simp add: filter_data_two mask_rows_def cart_abandonment_rate_def conv_add_to_purchase_def
      unique_adds_def nunique_def select_event_def sample_defs)

text \<open>
  C2, amended. When no event is selected, or the start of the range is after its end, the
  filter returns the empty view without an error, and on it the funnel and the monthly
  series are empty, the three unique counts, both conversion rates and the average order
  value are 0, and the cart abandonment rate is 1.
\<close>

theorem empty_selection_aggregates:
  assumes "events = [] \<or> e < s"
  shows "\<exists>V. filter_data df events [s, e] = Inr V \<and> V = [] \<and> funnel V = [] \<and>
     unique_views V = 0 \<and> unique_adds V = 0 \<and> unique_purchases V = 0 \<and>
     conv_view_to_add V = Inr 0 \<and> conv_add_to_purchase V = Inr 0 \<and>
     cart_abandonment_rate V = Inr 1 \<and> avg_order_value V = Num 0 \<and> monthly V = Inr []"
proof -
  have "funnel [] = []" by (simp add: funnel_def groupby_keys_def)
  moreover have u: "unique_views [] = 0" "unique_adds [] = 0" "unique_purchases [] = 0"
    by (simp_all add: unique_views_def unique_adds_def unique_purchases_def nunique_def
        select_event_def)
  moreover have "conv_view_to_add [] = Inr 0" "conv_add_to_purchase [] = Inr 0"
    by (simp_all add: conv_view_to_add_eq conv_add_to_purchase_eq u)
  moreover have "cart_abandonment_rate [] = Inr 1"
    by (simp add: cart_abandonment_rate_def conv_add_to_purchase_eq u)
  moreover have "avg_order_value [] = Num 0" by (simp add: avg_order_value_def u)
  moreover have "monthly [] = Inr []"
    by (simp add: monthly_def monthly_groups_def groupby_keys_def select_event_def)
  ultimately show ?thesis using filter_data_empty [OF assms] by simp
qed

theorem empty_selection_aggregates_witness:
  "filter_data sample_df [] [(2024, 1, 1), (2024, 12, 31)] = Inr [] \<and>
   ((2024, 1, 1) :: date) < (2024, 12, 31) \<and>
   filter_data sample_df [''purchase''] [(2024, 12, 31), (2024, 1, 1)] = Inr [] \<and>
   cart_abandonment_rate [] = Inr 1 \<and> avg_order_value [] = Num 0 \<and> monthly [] = Inr []"
  using empty_selection_aggregates [of "[]" "(2024, 12, 31)" "(2024, 1, 1)" sample_df]
    empty_selection_aggregates [of "[''purchase'']" "(2024, 1, 1)" "(2024, 12, 31)" sample_df]
  by simp

section \<open>Monthly purchase trend\<close>

text \<open>The month string of a well-formed row parses back to the first day of its month.\<close>

lemma digit_char_ok: "n < 10 \<Longrightarrow> is_digit (digit_char n) \<and> digit_val (digit_char n) = n"
  by (simp add: is_digit_def digit_val_def digit_char_def less_eq_char_def)

lemma decimal4:
  assumes "y < 10000"
  shows "1000 * (y div 1000 mod 10) + 100 * (y div 100 mod 10) + 10 * (y div 10 mod 10)
           + y mod 10 = (y::nat)"
proof -
  have d1: "y = 10 * (y div 10) + y mod 10" by simp
  have "y div 10 div 10 = y div 100" "y div 100 div 10 = y div 1000"
    by (simp_all add: div_mult2_eq [symmetric])
  then have d2: "y div 10 = 10 * (y div 100) + y div 10 mod 10"
    and d3: "y div 100 = 10 * (y div 1000) + y div 100 mod 10"
    by (metis mult_div_mod_eq)+
  have d4: "y div 1000 mod 10 = y div 1000"
    using assms by (simp add: div_less_iff_less_mult)
  show ?thesis using d1 d2 d3 d4 by linarith
qed

lemma decimal2: "10 * (m div 10 mod 10) + m mod 10 = (m::nat)" if "m \<le> 12"
proof -
  have "m div 10 mod 10 = m div 10" using that by (simp add: div_less_iff_less_mult)
  then show ?thesis by simp
qed

lemma to_datetime_digits:
  assumes "a < 10" "b < 10" "c < 10" "d < 10" "e < 10" "f < 10"
    and "1 \<le> 10 * e + f" "10 * e + f \<le> 12"
  shows "to_datetime [digit_char a, digit_char b, digit_char c, digit_char d, CHR ''-'',
           digit_char e, digit_char f]
         = Inr (1000 * a + 100 * b + 10 * c + d, 10 * e + f, 1)"
  using assms by (simp add: digit_char_ok Let_def)

lemma to_datetime_period_str:
  assumes "y < 10000" "1 \<le> m" "m \<le> 12"
  shows "to_datetime (period_str (y, m, d)) = Inr (y, m, 1)"
proof -
  have m: "10 * (m div 10 mod 10) + m mod 10 = m" using assms(3) by (rule decimal2)
  have "to_datetime (period_str (y, m, d)) =
      Inr (1000 * (y div 1000 mod 10) + 100 * (y div 100 mod 10) + 10 * (y div 10 mod 10)
             + y mod 10, 10 * (m div 10 mod 10) + m mod 10, 1)"
    unfolding period_str_def prod.case
    by (rule to_datetime_digits) (use assms m in simp_all)
  then show ?thesis by (simp only: decimal4 [OF assms(1)] m)
qed


lemma to_datetime_month:
  assumes "valid_row r"
  shows "to_datetime (month r) = Inr (month_start (date r))"
proof -
  obtain y m d where dt: "date r = (y, m, d)" by (cases "date r")
  with assms have "y < 10000" "1 \<le> m" "m \<le> 12" "month r = period_str (y, m, d)"
    by (simp_all add: valid_row_def)
  then show ?thesis
    by (simp add: to_datetime_period_str dt month_start_def)
qed

lemma period_str_month_start: "period_str (month_start dt) = period_str dt"
  by (cases dt) (simp add: period_str_def month_start_def)

lemma month_eq_iff:
  assumes "valid_row r" "valid_row r'"
  shows "month r = month r' \<longleftrightarrow> month_start (date r) = month_start (date r')"
proof
  assume "month r = month r'"
  then show "month_start (date r) = month_start (date r')"
    using to_datetime_month [OF assms(1)] to_datetime_month [OF assms(2)] by simp
next
  assume eq: "month_start (date r) = month_start (date r')"
  have "period_str (date r) = period_str (month_start (date r))"
    by (simp only: period_str_month_start)
  also have "\<dots> = period_str (date r')"
    by (simp only: eq period_str_month_start)
  finally show "month r = month r'"
    using assms by (simp add: valid_row_def)
qed

lemma traverse_total:
  "(\<And>x. x \<in> set xs \<Longrightarrow> f x = Inr (g x)) \<Longrightarrow> traverse f xs = Inr (map g xs)"
  by (induction xs) simp_all


lemma set_monthly_groups:
  "set (monthly_groups V) =
     (\<lambda>r0. (month r0, length (filter (\<lambda>r. month r = month r0) (select_event ''purchase'' V)),
        sum_list (map price (filter (\<lambda>r. month r = month r0) (select_event ''purchase'' V)))))
      ` set (select_event ''purchase'' V)"
  by (auto simp: monthly_groups_def Let_def set_groupby_keys image_iff)

lemma monthly_valid:
  assumes "\<And>r. r \<in> set V \<Longrightarrow> valid_row r"
  shows "monthly V =
     Inr (sort_key fst (map (\<lambda>g. (projr (to_datetime (fst g)), snd g)) (monthly_groups V)))"
proof -
  have "convert_month g = Inr (projr (to_datetime (fst g)), snd g)"
    if "g \<in> set (monthly_groups V)" for g
  proof -
    from that obtain r0 where "r0 \<in> set V" "fst g = month r0"
      by (auto simp: set_monthly_groups select_event_def)
    then have "to_datetime (fst g) = Inr (month_start (date r0))"
      using to_datetime_month assms by simp
    then show ?thesis by (simp add: convert_month_def)
  qed
  then have "traverse convert_month (monthly_groups V) =
      Inr (map (\<lambda>g. (projr (to_datetime (fst g)), snd g)) (monthly_groups V))"
    by (rule traverse_total)
  then show ?thesis by (simp add: monthly_def)
qed


lemma distinct_map_sort_key: "distinct (map f (sort_key g xs)) = distinct (map f xs)"
  by (simp add: distinct_map)

lemma purchase_month_group:
  assumes "\<And>r. r \<in> set V \<Longrightarrow> valid_row r" and "r0 \<in> set V"
  shows "filter (\<lambda>r. month r = month r0) (select_event ''purchase'' V) =
         filter (\<lambda>r. event r = ''purchase'' \<and> month_start (date r) = month_start (date r0)) V"
proof -
  have "(event r = ''purchase'' \<and> month r = month r0) =
        (event r = ''purchase'' \<and> month_start (date r) = month_start (date r0))"
    if "r \<in> set V" for r
    using month_eq_iff [of r r0] assms that by simp
  then show ?thesis
    unfolding select_event_def filter_filter by (rule filter_cong [OF refl])
qed

lemma monthly_set:
  assumes "\<And>r. r \<in> set V \<Longrightarrow> valid_row r" and "monthly V = Inr ms"
  shows "set ms =
     (\<lambda>r0. (month_start (date r0),
        length (filter (\<lambda>r. event r = ''purchase'' \<and> month_start (date r) = month_start (date r0)) V),
        sum_list (map price
          (filter (\<lambda>r. event r = ''purchase'' \<and> month_start (date r) = month_start (date r0)) V))))
      ` {r \<in> set V. event r = ''purchase''}"
    (is "_ = ?E ` ?S")
proof -
  let ?P = "select_event ''purchase'' V"
  let ?G = "\<lambda>r0. (month r0, length (filter (\<lambda>r. month r = month r0) ?P),
        sum_list (map price (filter (\<lambda>r. month r = month r0) ?P)))"
  let ?c = "\<lambda>g :: string \<times> nat \<times> rat. (projr (to_datetime (fst g)), snd g)"
  have S: "set ?P = ?S" by (auto simp: select_event_def)
  have "ms = sort_key fst (map ?c (monthly_groups V))"
    using monthly_valid [of V] assms by simp
  then have "set ms = ?c ` set (monthly_groups V)" by simp
  also have "\<dots> = (\<lambda>r0. ?c (?G r0)) ` ?S"
    by (simp only: set_monthly_groups S image_image)
  also have "\<dots> = ?E ` ?S"
  proof (rule image_cong [OF refl])
    fix r0 assume "r0 \<in> ?S"
    then have r0: "r0 \<in> set V" by simp
    have "projr (to_datetime (month r0)) = month_start (date r0)"
      using to_datetime_month [of r0] assms(1) r0 by simp
    then show "?c (?G r0) = ?E r0"
      by (simp add: purchase_month_group [OF assms(1) r0])
  qed
  finally show ?thesis .
qed

lemma monthly_distinct:
  assumes "\<And>r. r \<in> set V \<Longrightarrow> valid_row r" and "monthly V = Inr ms"
  shows "distinct (map fst ms)"
proof -
  let ?P = "select_event ''purchase'' V"
  let ?keys = "groupby_keys (map month ?P)"
  let ?c = "\<lambda>g :: string \<times> nat \<times> rat. (projr (to_datetime (fst g)), snd g)"
  have ms: "ms = sort_key fst (map ?c (monthly_groups V))"
    using monthly_valid [of V] assms by simp
  have fsts: "map fst (map ?c (monthly_groups V)) = map (\<lambda>k. projr (to_datetime k)) ?keys"
    by (simp add: monthly_groups_def Let_def comp_def)
  have "distinct ?keys" by (simp add: groupby_keys_def)
  moreover have "inj_on (\<lambda>k. projr (to_datetime k)) (set ?keys)"
  proof (rule inj_onI)
    fix k k'
    assume k: "k \<in> set ?keys" and k': "k' \<in> set ?keys"
      and eq: "projr (to_datetime k) = projr (to_datetime k')"
    from k obtain r where r: "r \<in> set V" "k = month r"
      by (auto simp: set_groupby_keys select_event_def)
    from k' obtain r' where r': "r' \<in> set V" "k' = month r'"
      by (auto simp: set_groupby_keys select_event_def)
    have "month_start (date r) = month_start (date r')"
      using eq to_datetime_month [of r] to_datetime_month [of r'] assms(1) r r' by simp
    then show "k = k'"
      using month_eq_iff [of r r'] assms(1) r r' by simp
  qed
  ultimately have "distinct (map (\<lambda>k. projr (to_datetime k)) ?keys)"
    by (simp add: distinct_map)
  then show ?thesis
    by (simp only: ms distinct_map_sort_key fsts)
qed

lemma digit_char_eq_iff: "c = digit_char n \<longleftrightarrow> take_bit 8 (48 + n) = (of_char c :: nat)"
proof -
  have "digit_char n = c \<longleftrightarrow> take_bit 8 (48 + n) = (of_char c :: nat)"
    unfolding digit_char_def by (rule char_of_eq_iff)
  then show ?thesis by (simp only: eq_commute [of c])
qed

text \<open>
  C8. On a view of well-formed rows the monthly series is computed without an error. Its
  month keys are strictly ascending in calendar order, so none occurs twice; they are
  exactly the calendar months of the purchase rows of the view; and the entry of a month
  holds the number of purchase rows of that month and the sum of their prices.
\<close>

theorem monthly_trend_sorted:
  assumes "\<forall>r \<in> set V. valid_row r"
  shows "\<exists>ms. monthly V = Inr ms \<and> sorted_wrt (<) (map fst ms) \<and>
     fst ` set ms = (\<lambda>r. month_start (date r)) ` {r \<in> set V. event r = ''purchase''} \<and>
     (\<forall>(d, c, s) \<in> set ms.
        c = length (filter (\<lambda>r. event r = ''purchase'' \<and> month_start (date r) = d) V) \<and>
        s = sum_list (map price
              (filter (\<lambda>r. event r = ''purchase'' \<and> month_start (date r) = d) V)))"
proof -
  let ?E = "\<lambda>r0. (month_start (date r0),
        length (filter (\<lambda>r. event r = ''purchase'' \<and> month_start (date r) = month_start (date r0)) V),
        sum_list (map price
          (filter (\<lambda>r. event r = ''purchase'' \<and> month_start (date r) = month_start (date r0)) V)))"
  have valid: "\<And>r. r \<in> set V \<Longrightarrow> valid_row r" using assms by simp
  let ?c = "\<lambda>g :: string \<times> nat \<times> rat. (projr (to_datetime (fst g)), snd g)"
  define ms where "ms = sort_key fst (map ?c (monthly_groups V))"
  have ms: "monthly V = Inr ms"
    unfolding ms_def by (rule monthly_valid [OF valid])
  have "sorted (map fst ms)"
    unfolding ms_def by (rule sorted_sort_key)
  then have s1: "sorted_wrt (<) (map fst ms)"
    using monthly_distinct [OF valid ms] by (simp only: strict_sorted_iff simp_thms)
  have s2: "fst ` set ms = (\<lambda>r. month_start (date r)) ` {r \<in> set V. event r = ''purchase''}"
    by (simp only: monthly_set [OF valid ms] image_image fst_conv)
  have "\<forall>(d, c, s) \<in> ?E ` {r \<in> set V. event r = ''purchase''}.
        c = length (filter (\<lambda>r. event r = ''purchase'' \<and> month_start (date r) = d) V) \<and>
        s = sum_list (map price
              (filter (\<lambda>r. event r = ''purchase'' \<and> month_start (date r) = d) V))"
    by (simp only: ball_simps prod.case simp_thms)
  then have s3: "\<forall>(d, c, s) \<in> set ms.
        c = length (filter (\<lambda>r. event r = ''purchase'' \<and> month_start (date r) = d) V) \<and>
        s = sum_list (map price
              (filter (\<lambda>r. event r = ''purchase'' \<and> month_start (date r) = d) V))"
    by (simp only: monthly_set [OF valid ms])
  show ?thesis
    by (rule exI [of _ ms]) (intro conjI ms s1 s2 s3)
qed

theorem monthly_trend_sorted_witness:
  "list_all valid_row sample_df \<and>
   monthly sample_df = Inr [((2024, 2, 1), 1, 50), ((2024, 3, 1), 2, 125)]"
proof -
  have "list_all valid_row sample_df"
    by (simp add: sample_defs valid_row_def period_str_def digit_char_eq_iff)
  then have v: "\<forall>r \<in> set sample_df. valid_row r" by (simp only: list_all_iff)
  have "monthly sample_df = Inr [((2024, 2, 1), 1, 50), ((2024, 3, 1), 2, 125)]"
    by (simp add: monthly_def monthly_groups_def groupby_keys_def select_event_def sample_defs
        convert_month_def is_digit_def digit_val_def)
  then show ?thesis
    using v monthly_trend_sorted [OF v] by (simp add: list_all_iff)
qed

section \<open>Data generator\<close>

text \<open>2024 is a leap year: the population of dates has 366 days.\<close>

lemma length_dates_2024: "length dates_2024 = 366"
  by (simp add: dates_2024_def days_in_month_def upt_rec [of _ "numeral _"] length_concat)

text \<open>Every row of a generated frame carries the month string of its own date.\<close>

lemma generate_data_month:
  assumes "fst (generate_data np g n seed) = Inr df" and "r \<in> set df"
  shows "month r = period_str (date r)"
  using assms
  by (auto simp: generate_data_def Let_def split: prod.splits sum.splits)

text \<open>
  C9. The frame that \<open>generate_data\<close> returns, and the generator state it leaves, depend
  on the record count and the seed only: whatever state numpy's generator was in before
  the call, the same count and seed give the same rows in the same order, month column
  included.
\<close>

theorem generate_data_deterministic:
  "generate_data np g n seed = generate_data np g' n seed"
  by (simp add: generate_data_def)

end
